theory Spec2Isabelle
  imports Complex_Main
begin

section \<open>Python values\<close>

text \<open>
  The lease classes of \<^verbatim>\<open>pyroute2/dhcp/leases.py\<close> are dataclasses whose fields
  are not checked when an instance is built, and a lease read back from disk holds
  whatever the JSON document held. The fields are therefore modelled as dynamically
  typed values: the values a JSON document decodes to. A dictionary is an association
  list, read with \<^const>\<open>map_of\<close>; its keys are strings, as in every decoded JSON
  object. Floats are modelled as real numbers: rounding, infinities and NaN are outside
  the model.
\<close>

datatype pyval =
    PNone
  | PBool bool
  | PInt int
  | PFloat real
  | PStr string
  | PList "pyval list"
  | PDict "(string \<times> pyval) list"

text \<open>
  The members of \<^verbatim>\<open>pyroute2.dhcp.enums.dhcp.Option\<close> that \<^verbatim>\<open>leases.py\<close> names. The
  enum itself is declared in another module; only the member names are used here.
\<close>

datatype Option =
    SUBNET_MASK
  | ROUTER
  | BROADCAST_ADDRESS
  | INTERFACE_MTU
  | NAME_SERVER
  | SERVER_ID
  | DOMAIN_NAME
  | DOMAIN_SEARCH

text \<open>Exceptions are values; \<open>Inl\<close> of a result is a raised exception.\<close>

datatype error =
    KeyError
  | TypeError
  | IndexError
  | ValueError
  | MissingOptionError Option
  | FileNotFoundError
  | IsADirectoryError
  | JSONDecodeError

subsection \<open>Operators on values\<close>

text \<open>\<^verbatim>\<open>bool\<close> is a subclass of \<^verbatim>\<open>int\<close>: \<^verbatim>\<open>True + 1 == 2\<close>.\<close>

fun py_integer :: "pyval \<Rightarrow> int option" where
  "py_integer (PBool b) = Some (if b then 1 else 0)"
| "py_integer (PInt i) = Some i"
| "py_integer _ = None"

fun py_number :: "pyval \<Rightarrow> real option" where
  "py_number (PBool b) = Some (if b then 1 else 0)"
| "py_number (PInt i) = Some (real_of_int i)"
| "py_number (PFloat r) = Some r"
| "py_number _ = None"

text \<open>\<^verbatim>\<open>a + b\<close>: integers stay integers, a float operand makes a float, two strings or two
  lists are concatenated, anything else is a \<^verbatim>\<open>TypeError\<close>.\<close>

fun py_add :: "pyval \<Rightarrow> pyval \<Rightarrow> error + pyval" where
  "py_add (PStr s) (PStr t) = Inr (PStr (s @ t))"
| "py_add (PList xs) (PList ys) = Inr (PList (xs @ ys))"
| "py_add a b =
     (case (py_integer a, py_integer b) of
        (Some i, Some j) \<Rightarrow> Inr (PInt (i + j))
      | _ \<Rightarrow>
        (case (py_number a, py_number b) of
           (Some x, Some y) \<Rightarrow> Inr (PFloat (x + y))
         | _ \<Rightarrow> Inl TypeError))"

text \<open>\<^verbatim>\<open>a - f\<close>, \<^verbatim>\<open>a * f\<close> for a float \<open>f\<close>, and \<^verbatim>\<open>a <= n\<close> for an integer literal \<open>n\<close>:
  defined on numbers only.\<close>

definition py_sub_float :: "pyval \<Rightarrow> real \<Rightarrow> error + pyval" where
  "py_sub_float a f = (case py_number a of Some x \<Rightarrow> Inr (PFloat (x - f)) | None \<Rightarrow> Inl TypeError)"

definition py_mul_float :: "pyval \<Rightarrow> real \<Rightarrow> error + pyval" where
  "py_mul_float a f = (case py_number a of Some x \<Rightarrow> Inr (PFloat (x * f)) | None \<Rightarrow> Inl TypeError)"

definition py_le_int :: "pyval \<Rightarrow> int \<Rightarrow> error + bool" where
  "py_le_int a n = (case py_number a of Some x \<Rightarrow> Inr (x \<le> real_of_int n) | None \<Rightarrow> Inl TypeError)"

text \<open>Truth value testing, as \<^verbatim>\<open>if x:\<close> does it.\<close>

fun py_truthy :: "pyval \<Rightarrow> bool" where
  "py_truthy PNone = False"
| "py_truthy (PBool b) = b"
| "py_truthy (PInt i) = (i \<noteq> 0)"
| "py_truthy (PFloat r) = (r \<noteq> 0)"
| "py_truthy (PStr s) = (s \<noteq> [])"
| "py_truthy (PList xs) = (xs \<noteq> [])"
| "py_truthy (PDict kvs) = (kvs \<noteq> [])"

text \<open>\<^verbatim>\<open>v[key]\<close> for a string key: a dictionary answers or raises \<^verbatim>\<open>KeyError\<close>; lists and
  strings want integer indices, and nothing else can be subscripted.\<close>

fun getitem_str :: "pyval \<Rightarrow> string \<Rightarrow> error + pyval" where
  "getitem_str (PDict kvs) k = (case map_of kvs k of Some v \<Rightarrow> Inr v | None \<Rightarrow> Inl KeyError)"
| "getitem_str _ k = Inl TypeError"

text \<open>\<^verbatim>\<open>v[i]\<close> for an integer index; negative indices count from the end. A dictionary
  with string keys has no integer key.\<close>

definition seq_index :: "'a list \<Rightarrow> int \<Rightarrow> error + 'a" where
  "seq_index xs i =
     (if 0 \<le> i \<and> i < int (length xs) then Inr (xs ! nat i)
      else if i < 0 \<and> - int (length xs) \<le> i then Inr (xs ! nat (int (length xs) + i))
      else Inl IndexError)"

fun getitem_int :: "pyval \<Rightarrow> int \<Rightarrow> error + pyval" where
  "getitem_int (PList xs) i = seq_index xs i"
| "getitem_int (PStr s) i = (case seq_index s i of Inl e \<Rightarrow> Inl e | Inr c \<Rightarrow> Inr (PStr [c]))"
| "getitem_int (PDict kvs) i = Inl KeyError"
| "getitem_int _ i = Inl TypeError"

text \<open>\<^verbatim>\<open>name in v\<close> for a string \<open>name\<close>: a key of a dictionary, an element of a list, a
  substring of a string; the other values are not iterable.\<close>

definition is_substring :: "string \<Rightarrow> string \<Rightarrow> bool" where
  "is_substring name s =
     list_ex (\<lambda>i. take (length name) (drop i s) = name) [0 ..< Suc (length s)]"

fun py_contains :: "pyval \<Rightarrow> string \<Rightarrow> error + bool" where
  "py_contains (PDict kvs) name = Inr (name \<in> set (map fst kvs))"
| "py_contains (PList xs) name = Inr (PStr name \<in> set xs)"
| "py_contains (PStr s) name = Inr (is_substring name s)"
| "py_contains _ name = Inl TypeError"

section \<open>Leases\<close>

text \<open>The dataclass \<^verbatim>\<open>Lease\<close>: four fields, none of them checked at construction.\<close>

record Lease =
  ack :: pyval
  interface :: pyval
  server_mac :: pyval
  obtained :: pyval

subsection \<open>Timers\<close>

text \<open>
  \<^verbatim>\<open>_now()\<close> reads the clock. Every function below takes the readings it makes as
  arguments, in the order of the calls.

  \<^verbatim>\<open>_seconds_til_timer\<close>: the two subscripts and the arithmetic are inside one
  \<^verbatim>\<open>try\<close>, whose handler turns a \<^verbatim>\<open>KeyError\<close> into \<^verbatim>\<open>None\<close> and lets every other
  exception pass.
\<close>

definition seconds_til_timer_body :: "Lease \<Rightarrow> string \<Rightarrow> real \<Rightarrow> error + pyval" where
  "seconds_til_timer_body self timer_name now =
     (case getitem_str (ack self) ''options'' of
        Inl e \<Rightarrow> Inl e
      | Inr opts \<Rightarrow>
        (case getitem_str opts (timer_name @ ''_time'') of
           Inl e \<Rightarrow> Inl e
         | Inr delta \<Rightarrow>
           (case py_add (obtained self) delta of
              Inl e \<Rightarrow> Inl e
            | Inr s \<Rightarrow> py_sub_float s now)))"

definition seconds_til_timer :: "Lease \<Rightarrow> string \<Rightarrow> real \<Rightarrow> error + pyval" where
  "seconds_til_timer self timer_name now =
     (case seconds_til_timer_body self timer_name now of
        Inl e \<Rightarrow> (if e = KeyError then Inr PNone else Inl e)
      | Inr v \<Rightarrow> Inr v)"

definition expiration_in :: "Lease \<Rightarrow> real \<Rightarrow> error + pyval" where
  "expiration_in self now = seconds_til_timer self ''lease'' now"

text \<open>\<^verbatim>\<open>expired\<close> reads \<^verbatim>\<open>expiration_in\<close> twice: once for the test against \<^verbatim>\<open>None\<close>,
  once for the comparison.\<close>

definition expired :: "Lease \<Rightarrow> real \<Rightarrow> real \<Rightarrow> error + bool" where
  "expired self now now' =
     (case expiration_in self now of
        Inl e \<Rightarrow> Inl e
      | Inr v \<Rightarrow>
        (if v = PNone then Inr False
         else (case expiration_in self now' of
                 Inl e \<Rightarrow> Inl e
               | Inr v' \<Rightarrow> py_le_int v' 0)))"

text \<open>\<^verbatim>\<open>random.uniform(a, b)\<close> is \<^verbatim>\<open>a + (b - a) * random()\<close>, where \<^verbatim>\<open>random()\<close> draws from
  \<open>[0, 1)\<close>; the draw is an argument.\<close>

definition uniform :: "real \<Rightarrow> real \<Rightarrow> real \<Rightarrow> real" where
  "uniform a b r = a + (b - a) * r"

text \<open>\<^verbatim>\<open>renewal_in\<close> and \<^verbatim>\<open>rebinding_in\<close>: the walrus test is a truth value test of the
  timer. The fallback reads the clock again, for \<^verbatim>\<open>expiration_in\<close>.\<close>

definition renewal_in :: "Lease \<Rightarrow> real \<Rightarrow> real \<Rightarrow> real \<Rightarrow> error + pyval" where
  "renewal_in self now now' r =
     (case seconds_til_timer self ''renewal'' now of
        Inl e \<Rightarrow> Inl e
      | Inr lease_renewal \<Rightarrow>
        (if py_truthy lease_renewal then Inr lease_renewal
         else (case expiration_in self now' of
                 Inl e \<Rightarrow> Inl e
               | Inr v \<Rightarrow> py_mul_float v (uniform (4 / 10) (6 / 10) r))))"

definition rebinding_in :: "Lease \<Rightarrow> real \<Rightarrow> real \<Rightarrow> real \<Rightarrow> error + pyval" where
  "rebinding_in self now now' r =
     (case seconds_til_timer self ''rebinding'' now of
        Inl e \<Rightarrow> Inl e
      | Inr lease_rebinding \<Rightarrow>
        (if py_truthy lease_rebinding then Inr lease_rebinding
         else (case expiration_in self now' of
                 Inl e \<Rightarrow> Inl e
               | Inr v \<Rightarrow> py_mul_float v (uniform (75 / 100) (90 / 100) r))))"

subsection \<open>Options\<close>

text \<open>The name of an enum member, and \<^verbatim>\<open>str.lower()\<close> on ASCII text.\<close>

fun Option_name :: "Option \<Rightarrow> string" where
  "Option_name SUBNET_MASK = ''SUBNET_MASK''"
| "Option_name ROUTER = ''ROUTER''"
| "Option_name BROADCAST_ADDRESS = ''BROADCAST_ADDRESS''"
| "Option_name INTERFACE_MTU = ''INTERFACE_MTU''"
| "Option_name NAME_SERVER = ''NAME_SERVER''"
| "Option_name SERVER_ID = ''SERVER_ID''"
| "Option_name DOMAIN_NAME = ''DOMAIN_NAME''"
| "Option_name DOMAIN_SEARCH = ''DOMAIN_SEARCH''"

definition char_lower :: "char \<Rightarrow> char" where
  "char_lower c =
     (case map_of (zip ''ABCDEFGHIJKLMNOPQRSTUVWXYZ'' ''abcdefghijklmnopqrstuvwxyz'') c of
        Some d \<Rightarrow> d
      | None \<Rightarrow> c)"

definition str_lower :: "string \<Rightarrow> string" where
  "str_lower s = map char_lower s"

text \<open>
  \<^verbatim>\<open>LeaseOption.__get__\<close>. The assertion \<^verbatim>\<open>isinstance(obj, Lease)\<close> holds of every
  \<^typ>\<open>Lease\<close>. \<^verbatim>\<open>MissingOptionError(self.opt)\<close> carries the option; its message is
  \<^verbatim>\<open>f"Lease does not set {opt!r}"\<close>.
\<close>

definition LeaseOption_get :: "Option \<Rightarrow> Lease \<Rightarrow> error + pyval" where
  "LeaseOption_get opt obj =
     (let opt_name = str_lower (Option_name opt) in
      case getitem_str (ack obj) ''options'' of
        Inl e \<Rightarrow> Inl e
      | Inr options \<Rightarrow>
        (case py_contains options opt_name of
           Inl e \<Rightarrow> Inl e
         | Inr present \<Rightarrow>
           (if \<not> present then Inl (MissingOptionError opt)
            else getitem_str options opt_name)))"

definition subnet_mask :: "Lease \<Rightarrow> error + pyval" where
  "subnet_mask = LeaseOption_get SUBNET_MASK"

definition routers :: "Lease \<Rightarrow> error + pyval" where
  "routers = LeaseOption_get ROUTER"

definition broadcast_address :: "Lease \<Rightarrow> error + pyval" where
  "broadcast_address = LeaseOption_get BROADCAST_ADDRESS"

definition mtu :: "Lease \<Rightarrow> error + pyval" where
  "mtu = LeaseOption_get INTERFACE_MTU"

definition name_servers :: "Lease \<Rightarrow> error + pyval" where
  "name_servers = LeaseOption_get NAME_SERVER"

definition server_id :: "Lease \<Rightarrow> error + pyval" where
  "server_id = LeaseOption_get SERVER_ID"

definition domain_name :: "Lease \<Rightarrow> error + pyval" where
  "domain_name = LeaseOption_get DOMAIN_NAME"

definition domain_search :: "Lease \<Rightarrow> error + pyval" where
  "domain_search = LeaseOption_get DOMAIN_SEARCH"

text \<open>The property that reads each option, as the class body binds them.\<close>

fun option_property :: "Option \<Rightarrow> Lease \<Rightarrow> error + pyval" where
  "option_property SUBNET_MASK = subnet_mask"
| "option_property ROUTER = routers"
| "option_property BROADCAST_ADDRESS = broadcast_address"
| "option_property INTERFACE_MTU = mtu"
| "option_property NAME_SERVER = name_servers"
| "option_property SERVER_ID = server_id"
| "option_property DOMAIN_NAME = domain_name"
| "option_property DOMAIN_SEARCH = domain_search"

definition ip :: "Lease \<Rightarrow> error + pyval" where
  "ip self = getitem_str (ack self) ''yiaddr''"

definition default_gateway :: "Lease \<Rightarrow> error + pyval" where
  "default_gateway self =
     (case routers self of
        Inl e \<Rightarrow> Inl e
      | Inr rs \<Rightarrow> getitem_int rs 0)"

section \<open>Lease files\<close>

subsection \<open>Paths\<close>

text \<open>
  A \<^verbatim>\<open>pathlib\<close> path on a POSIX system, absolute, as the list of its parts below the
  root. \<^verbatim>\<open>joinpath\<close> drops empty parts and single dots, and an absolute argument
  replaces the path. \<^verbatim>\<open>suffix\<close> is what follows the last dot of the name, unless
  that dot is the first or the last character; \<^verbatim>\<open>with_suffix\<close> refuses a malformed
  suffix and a path with no name.
\<close>

type_synonym Path = "string list"

fun split_sep :: "string \<Rightarrow> string list" where
  "split_sep [] = [[]]"
| "split_sep (c # cs) =
     (if c = CHR ''/'' then [] # split_sep cs
      else (case split_sep cs of
              [] \<Rightarrow> [[c]]
            | w # ws \<Rightarrow> (c # w) # ws))"

definition path_parts :: "string \<Rightarrow> Path" where
  "path_parts s = filter (\<lambda>p. p \<noteq> [] \<and> p \<noteq> ''.'') (split_sep s)"

definition joinpath :: "Path \<Rightarrow> string \<Rightarrow> Path" where
  "joinpath p s = (if s \<noteq> [] \<and> hd s = CHR ''/'' then path_parts s else p @ path_parts s)"

definition path_name :: "Path \<Rightarrow> string" where
  "path_name p = (if p = [] then [] else last p)"

fun rfind :: "char \<Rightarrow> string \<Rightarrow> nat option" where
  "rfind c [] = None"
| "rfind c (x # xs) =
     (case rfind c xs of
        Some i \<Rightarrow> Some (Suc i)
      | None \<Rightarrow> (if x = c then Some 0 else None))"

definition suffix :: "Path \<Rightarrow> string" where
  "suffix p =
     (let name = path_name p in
      case rfind CHR ''.'' name of
        None \<Rightarrow> []
      | Some i \<Rightarrow> (if 0 < i \<and> Suc i < length name then drop i name else []))"

definition with_suffix :: "Path \<Rightarrow> string \<Rightarrow> error + Path" where
  "with_suffix p suf =
     (if CHR ''/'' \<in> set suf then Inl ValueError
      else if (suf \<noteq> [] \<and> hd suf \<noteq> CHR ''.'') \<or> suf = ''.'' then Inl ValueError
      else if path_name p = [] then Inl ValueError
      else (let name = path_name p; old_suffix = suffix p;
                name' = (if old_suffix = [] then name @ suf
                         else take (length name - length old_suffix) name @ suf)
            in Inr (butlast p @ [name'])))"

text \<open>\<^verbatim>\<open>_get_lease_dir\<close> is the working directory, an argument here.\<close>

definition get_path :: "Path \<Rightarrow> string \<Rightarrow> error + Path" where
  "get_path cwd interface_name = with_suffix (joinpath cwd interface_name) ''.lease.json''"

subsection \<open>Files and JSON\<close>

text \<open>
  The text of a file is kept as what \<^verbatim>\<open>json.load\<close> makes of it: a document, with the
  value it decodes to, or text that does not decode, on which \<^verbatim>\<open>json.load\<close> raises
  \<^verbatim>\<open>JSONDecodeError\<close>. \<^verbatim>\<open>json.dump\<close> writes the document of a value. A file system
  maps a path to a file or a directory. Opening for reading fails on a missing path
  and on a directory; opening for writing creates or empties the file, and fails on
  a directory and when the parent is not a directory. Permissions are not modelled.
\<close>

datatype file_text = Undecodable string | Document pyval

datatype node = File file_text | Directory

type_synonym filesystem = "Path \<Rightarrow> node option"

definition open_rt :: "filesystem \<Rightarrow> Path \<Rightarrow> error + file_text" where
  "open_rt fs p =
     (case fs p of
        None \<Rightarrow> Inl FileNotFoundError
      | Some Directory \<Rightarrow> Inl IsADirectoryError
      | Some (File t) \<Rightarrow> Inr t)"

definition open_wt :: "filesystem \<Rightarrow> Path \<Rightarrow> error + filesystem" where
  "open_wt fs p =
     (if p = [] \<or> fs p = Some Directory then Inl IsADirectoryError
      else if fs (butlast p) \<noteq> Some Directory then Inl FileNotFoundError
      else Inr (fs(p \<mapsto> File (Undecodable []))))"

definition json_load :: "file_text \<Rightarrow> error + pyval" where
  "json_load t = (case t of Undecodable s \<Rightarrow> Inl JSONDecodeError | Document v \<Rightarrow> Inr v)"

definition json_dump :: "pyval \<Rightarrow> filesystem \<Rightarrow> Path \<Rightarrow> filesystem" where
  "json_dump obj fs p = fs(p \<mapsto> File (Document obj))"

subsection \<open>Logging\<close>

text \<open>A log record keeps the level, the format string and the arguments of the call.\<close>

datatype level = DEBUG | INFO | WARNING | ERROR

datatype log_arg = Arg_value pyval | Arg_str string | Arg_path Path | Arg_error error

type_synonym log_record = "level \<times> string \<times> log_arg list"

subsection \<open>The file-backed lease\<close>

text \<open>\<^verbatim>\<open>dataclasses.asdict\<close>: the four fields by name, in declaration order.\<close>

definition asdict :: "Lease \<Rightarrow> pyval" where
  "asdict self =
     PDict [(''ack'', ack self), (''interface'', interface self),
            (''server_mac'', server_mac self), (''obtained'', obtained self)]"

text \<open>
  \<^verbatim>\<open>cls(**d)\<close>: \<open>d\<close> must be a mapping; a key that is no field and a missing required
  field are a \<^verbatim>\<open>TypeError\<close>; \<^verbatim>\<open>obtained\<close> defaults to the clock reading. No value
  is inspected.
\<close>

definition field_names :: "string list" where
  "field_names = [''ack'', ''interface'', ''server_mac'', ''obtained'']"

definition Lease_init :: "real \<Rightarrow> pyval \<Rightarrow> error + Lease" where
  "Lease_init now d =
     (case d of
        PDict kw \<Rightarrow>
          (if \<not> list_all (\<lambda>k. k \<in> set field_names) (map fst kw) then Inl TypeError
           else (case (map_of kw ''ack'', map_of kw ''interface'', map_of kw ''server_mac'') of
                   (Some a, Some i, Some m) \<Rightarrow>
                     Inr \<lparr> ack = a, interface = i, server_mac = m,
                           obtained = (case map_of kw ''obtained'' of
                                         Some t \<Rightarrow> t
                                       | None \<Rightarrow> PFloat now) \<rparr>
                 | _ \<Rightarrow> Inl TypeError))
      | _ \<Rightarrow> Inl TypeError)"

text \<open>\<^verbatim>\<open>JSONFileLease.dump\<close>. \<^verbatim>\<open>joinpath\<close> raises \<^verbatim>\<open>TypeError\<close> when the interface is
  not a string.\<close>

definition dump :: "filesystem \<Rightarrow> Path \<Rightarrow> Lease \<Rightarrow> log_record list \<times> (error + filesystem)" where
  "dump fs cwd self =
     (case interface self of
        PStr interface_name \<Rightarrow>
          (case get_path cwd interface_name of
             Inl e \<Rightarrow> ([], Inl e)
           | Inr lease_path \<Rightarrow>
             (let recs = [(INFO, ''Writing lease for %s to %s'',
                          [Arg_value (interface self), Arg_path lease_path])]
              in case open_wt fs lease_path of
                   Inl e \<Rightarrow> (recs, Inl e)
                 | Inr fs' \<Rightarrow> (recs, Inr (json_dump (asdict self) fs' lease_path))))
      | _ \<Rightarrow> ([], Inl TypeError))"

text \<open>
  \<^verbatim>\<open>JSONFileLease.load\<close>. The path is computed before the \<^verbatim>\<open>try\<close>. Its body opens the
  file, logs, decodes and builds the lease; the handlers answer \<^verbatim>\<open>FileNotFoundError\<close>
  and \<^verbatim>\<open>TypeError\<close> with a log record and \<^verbatim>\<open>None\<close>, and every other exception leaves
  \<^verbatim>\<open>load\<close>.
\<close>

definition load_body ::
  "filesystem \<Rightarrow> Path \<Rightarrow> real \<Rightarrow> string \<Rightarrow> log_record list \<times> (error + Lease)" where
  "load_body fs lease_path now interface_name =
     (case open_rt fs lease_path of
        Inl e \<Rightarrow> ([], Inl e)
      | Inr lf \<Rightarrow>
        (let recs = [(INFO, ''Loading lease for %s from %s'',
                     [Arg_str interface_name, Arg_path lease_path])]
         in case json_load lf of
              Inl e \<Rightarrow> (recs, Inl e)
            | Inr d \<Rightarrow> (recs, Lease_init now d)))"

definition load ::
  "filesystem \<Rightarrow> Path \<Rightarrow> real \<Rightarrow> string \<Rightarrow> log_record list \<times> (error + Lease option)" where
  "load fs cwd now interface_name =
     (case get_path cwd interface_name of
        Inl e \<Rightarrow> ([], Inl e)
      | Inr lease_path \<Rightarrow>
        (case load_body fs lease_path now interface_name of
           (recs, Inr lease) \<Rightarrow> (recs, Inr (Some lease))
         | (recs, Inl e) \<Rightarrow>
           (if e = FileNotFoundError then
              (recs @ [(INFO, ''No existing lease at %s for %s'',
                       [Arg_path lease_path, Arg_str interface_name])], Inr None)
            else if e = TypeError then
              (recs @ [(WARNING, ''Error loading lease: %s'', [Arg_error e])], Inr None)
            else (recs, Inl e))))"

section \<open>Hooks\<close>

text \<open>
  Modelled from the spec: \<^verbatim>\<open>run_hooks\<close> and the hook type of \<^verbatim>\<open>pyroute2/dhcp/hooks.py\<close>,
  a module known here through its tests only. The
  definitions follow the spec's section on the hook orchestrator and the messages that
  \<^verbatim>\<open>test_hook_timeout\<close> and \<^verbatim>\<open>test_failing_hook\<close> expect.

  What a hook does once started on a lease is one of: it completes after some
  seconds, it fails after some seconds with a failure whose description is given, or
  it never finishes. Times are measured from the dispatch, which starts every hook.
\<close>

datatype hook_run = Completes real | Raises real string | Hangs

text \<open>Modelled from the spec: the triggers, of which the spec names the lease being
  obtained and its loss; the tests use \<^verbatim>\<open>Trigger.BOUND\<close>.\<close>

datatype Trigger = BOUND | UNBOUND

record Hook =
  hook_name :: string
  hook_body :: "Lease \<Rightarrow> hook_run"

datatype outcome = Success | Timeout | Exception string

text \<open>
  Modelled from the spec: each hook is allotted \<open>timeout\<close> seconds. Waiting for a
  hook under that deadline returns when the hook completes in time, raises the hook's
  failure when it fails in time, and otherwise cancels the hook at the deadline and
  raises a time-out.
\<close>

datatype hook_error = TimeoutError | HookFailure string

definition wait_for :: "hook_run \<Rightarrow> real \<Rightarrow> hook_error + unit" where
  "wait_for run timeout =
     (case run of
        Completes d \<Rightarrow> (if d \<le> timeout then Inr () else Inl TimeoutError)
      | Raises d description \<Rightarrow>
          (if d \<le> timeout then Inl (HookFailure description) else Inl TimeoutError)
      | Hangs \<Rightarrow> Inl TimeoutError)"

text \<open>Modelled from the spec: the moment a hook reaches its outcome; a cancelled hook
  reaches it at the deadline.\<close>

definition settled_at :: "hook_run \<Rightarrow> real \<Rightarrow> real" where
  "settled_at run timeout =
     (case run of
        Completes d \<Rightarrow> min d timeout
      | Raises d description \<Rightarrow> min d timeout
      | Hangs \<Rightarrow> timeout)"

text \<open>Modelled from the spec: a hook has exceeded the timeout when it is still running
  at the deadline.\<close>

definition exceeds :: "hook_run \<Rightarrow> real \<Rightarrow> bool" where
  "exceeds run timeout =
     (case run of
        Completes d \<Rightarrow> timeout < d
      | Raises d description \<Rightarrow> timeout < d
      | Hangs \<Rightarrow> True)"

text \<open>
  Modelled from the spec: the two error messages, \<^verbatim>\<open>Hook '<name>' timed out\<close> with the
  name quoted and \<^verbatim>\<open>Hook <name> failed: <description>\<close>.
\<close>

definition timed_out_message :: "string \<Rightarrow> string" where
  "timed_out_message name = ''Hook '' @ [CHR 0x27] @ name @ [CHR 0x27] @ '' timed out''"

definition failed_message :: "string \<Rightarrow> string \<Rightarrow> string" where
  "failed_message name description = ''Hook '' @ name @ '' failed: '' @ description"

text \<open>
  Modelled from the spec: the orchestration boundary around one hook. Whatever the
  wait raises is handled here: a time-out and a failure each become an outcome with
  its error message, a completion becomes a success with no message.
\<close>

definition guarded ::
  "Hook \<Rightarrow> Lease \<Rightarrow> real \<Rightarrow> hook_error + outcome \<times> (level \<times> string) list" where
  "guarded h lease timeout =
     (case wait_for (hook_body h lease) timeout of
        Inr u \<Rightarrow> Inr (Success, [])
      | Inl e \<Rightarrow>
        (case e of
           TimeoutError \<Rightarrow> Inr (Timeout, [(ERROR, timed_out_message (hook_name h))])
         | HookFailure description \<Rightarrow>
             Inr (Exception description,
                  [(ERROR, failed_message (hook_name h) description)])))"

text \<open>Modelled from the spec: the results of the hooks are collected in the order of
  the hooks; an exception that one of them let through would leave the collection.\<close>

fun gather :: "(hook_error + 'a) list \<Rightarrow> hook_error + 'a list" where
  "gather [] = Inr []"
| "gather (x # xs) =
     (case x of
        Inl e \<Rightarrow> Inl e
      | Inr r \<Rightarrow> (case gather xs of Inl e \<Rightarrow> Inl e | Inr rs \<Rightarrow> Inr (r # rs)))"

text \<open>
  Modelled from the spec: \<^verbatim>\<open>run_hooks(hooks, lease, trigger, timeout)\<close> starts every hook
  of the sequence, records one outcome for each, logs it, and returns when the last
  hook has settled. \<open>Inl\<close> is an exception that leaves \<^verbatim>\<open>run_hooks\<close>. The messages
  are listed in the order of the hooks; the spec fixes no order between the messages
  of different hooks.
\<close>

record hooks_report =
  outcomes :: "outcome list"
  messages :: "(level \<times> string) list"
  returned_at :: real

definition run_hooks ::
  "Hook list \<Rightarrow> Lease \<Rightarrow> Trigger \<Rightarrow> real \<Rightarrow> hook_error + hooks_report" where
  "run_hooks hooks lease trigger timeout =
     (case gather (map (\<lambda>h. guarded h lease timeout) hooks) of
        Inl e \<Rightarrow> Inl e
      | Inr results \<Rightarrow>
          Inr \<lparr> outcomes = map fst results,
                messages = concat (map snd results),
                returned_at =
                  fold max (map (\<lambda>h. settled_at (hook_body h lease) timeout) hooks) 0 \<rparr>)"

section \<open>Example data\<close>

text \<open>The lease of the tests (\<^verbatim>\<open>FAKE_LEASE\<close>), obtained at time 1000, and variants of it.\<close>

definition fake_options :: "(string \<times> pyval) list" where
  "fake_options =
     [(''message_type'', PInt 5), (''server_id'', PStr ''192.168.112.1''),
      (''lease_time'', PInt 120), (''renewal_time'', PInt 60),
      (''rebinding_time'', PInt 105), (''subnet_mask'', PStr ''255.255.255.0''),
      (''broadcast_address'', PStr ''192.168.112.255''),
      (''router'', PList [PStr ''192.168.112.1'']),
      (''name_server'', PList [PStr ''192.168.112.1''])]"

definition lease_with :: "(string \<times> pyval) list \<Rightarrow> Lease" where
  "lease_with opts =
     \<lparr> ack = PDict [(''op'', PInt 2), (''yiaddr'', PStr ''192.168.112.73''),
                    (''options'', PDict opts)],
       interface = PStr ''eth0'', server_mac = PStr ''2e:7e:7d:8e:5f:5f'',
       obtained = PFloat 1000 \<rparr>"

definition fake_lease :: Lease where
  "fake_lease = lease_with fake_options"

text \<open>A lease whose acknowledgement carries the lease time and no other timer, and one
  with no timer at all.\<close>

definition lease_time_only :: Lease where
  "lease_time_only = lease_with [(''lease_time'', PInt 120), (''router'', PList [])]"

definition no_timers :: Lease where
  "no_timers = lease_with [(''subnet_mask'', PStr ''255.255.255.0'')]"

text \<open>The lease of the tests on a VLAN interface.\<close>

definition vlan_lease :: Lease where
  "vlan_lease = fake_lease\<lparr>interface := PStr ''eth0.100''\<rparr>"

text \<open>A working directory \<^verbatim>\<open>/srv\<close>, empty, and the same with a lease file for
  \<^verbatim>\<open>eth0\<close> whose text is cut short.\<close>

definition srv :: Path where
  "srv = [''srv'']"

definition empty_fs :: filesystem where
  "empty_fs = [[] \<mapsto> Directory, srv \<mapsto> Directory]"

definition corrupt_fs :: filesystem where
  "corrupt_fs = empty_fs([''srv'', ''eth0.lease.json''] \<mapsto> File (Undecodable ''{''))"

text \<open>A lease file for \<^verbatim>\<open>eth0\<close> that names another interface and whose other values
  are not what a lease holds.\<close>

definition odd_record :: "(string \<times> pyval) list" where
  "odd_record =
     [(''ack'', PDict [(''options'', PDict [(''lease_time'', PStr ''soon'')])]),
      (''interface'', PStr ''wlan0''), (''server_mac'', PNone), (''obtained'', PList [])]"

definition odd_fs :: filesystem where
  "odd_fs = empty_fs([''srv'', ''eth0.lease.json''] \<mapsto> File (Document (PDict odd_record)))"

definition odd_lease :: Lease where
  "odd_lease =
     \<lparr> ack = PDict [(''options'', PDict [(''lease_time'', PStr ''soon'')])],
       interface = PStr ''wlan0'', server_mac = PNone, obtained = PList [] \<rparr>"

text \<open>Two hooks of the tests, one that sleeps ten seconds and one that fails at once,
  and a hook that completes at once.\<close>

definition quick_hook :: Hook where
  "quick_hook = \<lparr> hook_name = ''quick_hook'', hook_body = (\<lambda>lease. Completes 0) \<rparr>"

definition sleepy_hook :: Hook where
  "sleepy_hook = \<lparr> hook_name = ''sleepy_hook'', hook_body = (\<lambda>lease. Completes 10) \<rparr>"

definition failing_hook :: Hook where
  "failing_hook =
     \<lparr> hook_name = ''failing_hook'',
       hook_body = (\<lambda>lease. Raises 0 (''RuntimeError('' @ [CHR 0x27] @ ''boom'' @ [CHR 0x27] @ '')'')) \<rparr>"

section \<open>Facts about the timers\<close>

lemmas timer_defs = expiration_in_def seconds_til_timer_def seconds_til_timer_body_def
  py_sub_float_def py_mul_float_def py_le_int_def uniform_def

lemmas example_defs = lease_with_def fake_lease_def fake_options_def lease_time_only_def
  no_timers_def vlan_lease_def odd_lease_def

lemma seconds_til_timer_cases:
  "seconds_til_timer self t now = Inr v \<Longrightarrow> v = PNone \<or> (\<exists>e. v = PFloat e)"
  by (auto simp: seconds_til_timer_def seconds_til_timer_body_def py_sub_float_def
      split: sum.splits option.splits if_splits)

lemma seconds_til_timer_None_any:
  "seconds_til_timer self t now = Inr PNone \<Longrightarrow> seconds_til_timer self t now' = Inr PNone"
  by (auto simp: seconds_til_timer_def seconds_til_timer_body_def py_sub_float_def
      split: sum.splits option.splits if_splits)

lemma seconds_til_timer_Float_any:
  "seconds_til_timer self t now = Inr (PFloat e) \<Longrightarrow> seconds_til_timer self t now' = Inr (PFloat (e + now - now'))"
  by (auto simp: seconds_til_timer_def seconds_til_timer_body_def py_sub_float_def
      split: sum.splits option.splits if_splits)

lemma seconds_til_timer_absent:
  "getitem_str (ack self) ''options'' = Inr (PDict opts) \<Longrightarrow> map_of opts (t @ ''_time'') = None
   \<Longrightarrow> seconds_til_timer self t now = Inr PNone"
  by (simp add: seconds_til_timer_def seconds_til_timer_body_def)

lemma seconds_til_timer_present:
  "getitem_str (ack self) ''options'' = Inr (PDict opts) \<Longrightarrow>
   map_of opts (t @ ''_time'') = Some (PInt delta) \<Longrightarrow> obtained self = PFloat T \<Longrightarrow>
   seconds_til_timer self t now = Inr (PFloat (T + real_of_int delta - now))"
  by (simp add: seconds_til_timer_def seconds_til_timer_body_def py_sub_float_def)

lemma renewal_in_explicit:
  "seconds_til_timer self ''renewal'' now = Inr (PFloat t) \<Longrightarrow> t \<noteq> 0 \<Longrightarrow>
   renewal_in self now now' r = Inr (PFloat t)"
  by (simp add: renewal_in_def)

lemma rebinding_in_explicit:
  "seconds_til_timer self ''rebinding'' now = Inr (PFloat t) \<Longrightarrow> t \<noteq> 0 \<Longrightarrow>
   rebinding_in self now now' r = Inr (PFloat t)"
  by (simp add: rebinding_in_def)

lemma renewal_in_fallback:
  "seconds_til_timer self ''renewal'' now = Inr PNone \<Longrightarrow>
   expiration_in self now' = Inr (PFloat e) \<Longrightarrow>
   renewal_in self now now' r = Inr (PFloat (e * uniform (4 / 10) (6 / 10) r))"
  by (simp add: renewal_in_def py_mul_float_def)

lemma rebinding_in_fallback:
  "seconds_til_timer self ''rebinding'' now = Inr PNone \<Longrightarrow>
   expiration_in self now' = Inr (PFloat e) \<Longrightarrow>
   rebinding_in self now now' r = Inr (PFloat (e * uniform (75 / 100) (90 / 100) r))"
  by (simp add: rebinding_in_def py_mul_float_def)

lemma renewal_in_zero:
  "seconds_til_timer self ''renewal'' now = Inr (PFloat 0) \<Longrightarrow>
   expiration_in self now' = Inr (PFloat e) \<Longrightarrow>
   renewal_in self now now' r = Inr (PFloat (e * uniform (4 / 10) (6 / 10) r))"
  by (simp add: renewal_in_def py_mul_float_def)

lemma rebinding_in_zero:
  "seconds_til_timer self ''rebinding'' now = Inr (PFloat 0) \<Longrightarrow>
   expiration_in self now' = Inr (PFloat e) \<Longrightarrow>
   rebinding_in self now now' r = Inr (PFloat (e * uniform (75 / 100) (90 / 100) r))"
  by (simp add: rebinding_in_def py_mul_float_def)

lemma uniform_bounds: "a \<le> b \<Longrightarrow> 0 \<le> r \<Longrightarrow> r < 1 \<Longrightarrow> a \<le> uniform a b r \<and> uniform a b r \<le> b"
proof -
  assume ab: "a \<le> b" and r0: "0 \<le> r" and r1: "r < 1"
  have "0 \<le> (b - a) * r" using ab r0 by simp
  moreover have "(b - a) * r \<le> (b - a) * 1"
    using ab r1 by (intro mult_left_mono) simp_all
  ultimately show ?thesis by (simp add: uniform_def)
qed

lemma uniform_inj: "a < b \<Longrightarrow> uniform a b r = uniform a b r' \<Longrightarrow> r = r'"
  by (simp add: uniform_def)

lemma scaled_bounds: "(0::real) \<le> e \<Longrightarrow> lo \<le> k \<Longrightarrow> k \<le> hi \<Longrightarrow> lo * e \<le> e * k \<and> e * k \<le> hi * e"
proof -
  assume e: "0 \<le> e" and lo: "lo \<le> k" and hi: "k \<le> hi"
  have "e * lo \<le> e * k" using lo e by (rule mult_left_mono)
  moreover have "e * k \<le> e * hi" using hi e by (rule mult_left_mono)
  ultimately show ?thesis by (simp add: mult.commute)
qed

text \<open>
  C5: for every lease and every reading of the clock, \<^verbatim>\<open>expired\<close> is true exactly when
  \<^verbatim>\<open>expiration_in\<close> is defined and at most zero; when the options lack
  \<^verbatim>\<open>lease_time\<close>, \<^verbatim>\<open>expiration_in\<close> is \<^verbatim>\<open>None\<close> and \<^verbatim>\<open>expired\<close> returns false
  without raising.
\<close>

theorem expired_iff:
  "((expired self now now' = Inr True) =
      (\<exists>e. expiration_in self now' = Inr (PFloat e) \<and> e \<le> 0)) \<and>
   (getitem_str (ack self) ''options'' = Inr (PDict opts) \<and> map_of opts ''lease_time'' = None \<longrightarrow>
      expiration_in self now = Inr PNone \<and> expired self now now' = Inr False)"
proof (intro conjI impI)
  show "(expired self now now' = Inr True) =
      (\<exists>e. expiration_in self now' = Inr (PFloat e) \<and> e \<le> 0)"
  proof
    assume t: "expired self now now' = Inr True"
    then obtain v' where v': "expiration_in self now' = Inr v'" and le: "py_le_int v' 0 = Inr True"
      by (auto simp: expired_def split: sum.splits if_splits)
    from v' have "v' = PNone \<or> (\<exists>e. v' = PFloat e)"
      unfolding expiration_in_def by (rule seconds_til_timer_cases)
    with le obtain e where "v' = PFloat e" "e \<le> 0"
      by (auto simp: py_le_int_def)
    with v' show "\<exists>e. expiration_in self now' = Inr (PFloat e) \<and> e \<le> 0" by blast
  next
    assume "\<exists>e. expiration_in self now' = Inr (PFloat e) \<and> e \<le> 0"
    then obtain e where e: "expiration_in self now' = Inr (PFloat e)" and le: "e \<le> 0" by blast
    from e have "expiration_in self now = Inr (PFloat (e + now' - now))"
      unfolding expiration_in_def by (rule seconds_til_timer_Float_any)
    with e le show "expired self now now' = Inr True"
      by (simp add: expired_def py_le_int_def)
  qed
next
  assume a: "getitem_str (ack self) ''options'' = Inr (PDict opts) \<and> map_of opts ''lease_time'' = None"
  then have "seconds_til_timer self ''lease'' now = Inr PNone"
    using seconds_til_timer_absent [of self opts "''lease''" now] by simp
  then show n: "expiration_in self now = Inr PNone" by (simp add: expiration_in_def)
  then show "expired self now now' = Inr False" by (simp add: expired_def)
qed

theorem expired_iff_witness:
  "expiration_in fake_lease 1121 = Inr (PFloat (- 1)) \<and> expired fake_lease 1121 1121 = Inr True \<and>
   getitem_str (ack no_timers) ''options'' = Inr (PDict [(''subnet_mask'', PStr ''255.255.255.0'')]) \<and>
   expiration_in no_timers 5 = Inr PNone \<and> expired no_timers 5 7 = Inr False"
proof -
  have e: "expiration_in fake_lease 1121 = Inr (PFloat (- 1))"
    by (simp add: timer_defs example_defs)
  have o: "getitem_str (ack no_timers) ''options'' =
      Inr (PDict [(''subnet_mask'', PStr ''255.255.255.0'')])"
    by (simp add: example_defs)
  from e expired_iff [of fake_lease 1121 1121] have "expired fake_lease 1121 1121 = Inr True"
    by simp
  moreover from o expired_iff [of no_timers 5 7 "[(''subnet_mask'', PStr ''255.255.255.0'')]"]
  have "expiration_in no_timers 5 = Inr PNone \<and> expired no_timers 5 7 = Inr False"
    by simp
  ultimately show ?thesis using e o by simp
qed

text \<open>
  C2: with an explicit \<^verbatim>\<open>renewal_time\<close> (or \<^verbatim>\<open>rebinding_time\<close>) the timer is
  \<open>obtained + time - now\<close>, with no jitter. The code tests the timer for truth, so it
  does this only while the timer is not zero (\<open>renewal_in_explicit\<close>). On the lease of
  the tests, read at the very second the timer reaches zero, the fallback runs: the
  result is the jittered share of \<^verbatim>\<open>expiration_in\<close>, and without a lease time it is a
  \<^verbatim>\<open>TypeError\<close>.
\<close>

theorem timer_zero_is_falsy:
  "seconds_til_timer fake_lease ''renewal'' 1060 = Inr (PFloat 0) \<and>
   renewal_in fake_lease 1060 1060 (1 / 2) = Inr (PFloat 30) \<and>
   seconds_til_timer fake_lease ''rebinding'' 1105 = Inr (PFloat 0) \<and>
   rebinding_in fake_lease 1105 1105 (1 / 2) = Inr (PFloat (99 / 8)) \<and>
   renewal_in (lease_with [(''renewal_time'', PInt 60)]) 1060 1060 (1 / 2) = Inl TypeError"
  by (simp add: renewal_in_def rebinding_in_def timer_defs example_defs)

text \<open>
  C7: when the options lack \<^verbatim>\<open>renewal_time\<close> and \<^verbatim>\<open>expiration_in\<close> is defined, every
  sample of \<^verbatim>\<open>renewal_in\<close> is \<^verbatim>\<open>expiration_in\<close> times a factor in \<open>[0.4, 0.6]\<close>, so it
  lies between \<open>0.4\<close> and \<open>0.6\<close> times \<^verbatim>\<open>expiration_in\<close> while that is not negative;
  each read uses its own draw, so two reads with different draws differ unless
  \<^verbatim>\<open>expiration_in\<close> is zero. Likewise for \<^verbatim>\<open>rebinding_in\<close> with \<open>[0.75, 0.90]\<close>. The
  draw \<open>r\<close> is what \<^verbatim>\<open>random()\<close> returns, in \<open>[0, 1)\<close>.
\<close>

theorem fallback_jitter:
  assumes "getitem_str (ack self) ''options'' = Inr (PDict opts)"
    and "expiration_in self now' = Inr (PFloat e)"
    and "0 \<le> r" and "r < 1"
  shows "(map_of opts ''renewal_time'' = None \<longrightarrow>
           (\<exists>k. 4 / 10 \<le> k \<and> k \<le> 6 / 10 \<and>
                renewal_in self now now' r = Inr (PFloat (e * k)) \<and>
                (0 \<le> e \<longrightarrow> 4 / 10 * e \<le> e * k \<and> e * k \<le> 6 / 10 * e)) \<and>
           (\<forall>r'. e \<noteq> 0 \<and> r' \<noteq> r \<longrightarrow>
                renewal_in self now now' r' \<noteq> renewal_in self now now' r)) \<and>
         (map_of opts ''rebinding_time'' = None \<longrightarrow>
           (\<exists>k. 75 / 100 \<le> k \<and> k \<le> 90 / 100 \<and>
                rebinding_in self now now' r = Inr (PFloat (e * k)) \<and>
                (0 \<le> e \<longrightarrow> 75 / 100 * e \<le> e * k \<and> e * k \<le> 90 / 100 * e)) \<and>
           (\<forall>r'. e \<noteq> 0 \<and> r' \<noteq> r \<longrightarrow>
                rebinding_in self now now' r' \<noteq> rebinding_in self now now' r))"
proof (intro conjI impI allI)
  assume "map_of opts ''renewal_time'' = None"
  then have n: "seconds_til_timer self ''renewal'' now = Inr PNone"
    using assms(1) seconds_til_timer_absent [of self opts "''renewal''" now] by simp
  have f: "\<And>q. renewal_in self now now' q = Inr (PFloat (e * uniform (4 / 10) (6 / 10) q))"
    using n assms(2) by (rule renewal_in_fallback)
  have b: "4 / 10 \<le> uniform (4 / 10) (6 / 10) r \<and> uniform (4 / 10) (6 / 10) r \<le> 6 / 10"
    using assms(3,4) by (intro uniform_bounds) simp_all
  show "\<exists>k. 4 / 10 \<le> k \<and> k \<le> 6 / 10 \<and>
                renewal_in self now now' r = Inr (PFloat (e * k)) \<and>
                (0 \<le> e \<longrightarrow> 4 / 10 * e \<le> e * k \<and> e * k \<le> 6 / 10 * e)"
    using b f [of r] scaled_bounds [of e "4 / 10" "uniform (4 / 10) (6 / 10) r" "6 / 10"]
    by (intro exI [of _ "uniform (4 / 10) (6 / 10) r"]) simp
  fix r'
  assume d: "e \<noteq> 0 \<and> r' \<noteq> r"
  show "renewal_in self now now' r' \<noteq> renewal_in self now now' r"
  proof
    assume "renewal_in self now now' r' = renewal_in self now now' r"
    then have "e * uniform (4 / 10) (6 / 10) r' = e * uniform (4 / 10) (6 / 10) r"
      by (simp add: f)
    with d have "uniform (4 / 10) (6 / 10) r' = uniform (4 / 10) (6 / 10) r" by simp
    then have "r' = r" using uniform_inj [of "4 / 10" "6 / 10" r' r] by simp
    with d show False by simp
  qed
next
  assume "map_of opts ''rebinding_time'' = None"
  then have n: "seconds_til_timer self ''rebinding'' now = Inr PNone"
    using assms(1) seconds_til_timer_absent [of self opts "''rebinding''" now] by simp
  have f: "\<And>q. rebinding_in self now now' q = Inr (PFloat (e * uniform (75 / 100) (90 / 100) q))"
    using n assms(2) by (rule rebinding_in_fallback)
  have b: "75 / 100 \<le> uniform (75 / 100) (90 / 100) r \<and> uniform (75 / 100) (90 / 100) r \<le> 90 / 100"
    using assms(3,4) by (intro uniform_bounds) simp_all
  show "\<exists>k. 75 / 100 \<le> k \<and> k \<le> 90 / 100 \<and>
                rebinding_in self now now' r = Inr (PFloat (e * k)) \<and>
                (0 \<le> e \<longrightarrow> 75 / 100 * e \<le> e * k \<and> e * k \<le> 90 / 100 * e)"
    using b f [of r] scaled_bounds [of e "75 / 100" "uniform (75 / 100) (90 / 100) r" "90 / 100"]
    by (intro exI [of _ "uniform (75 / 100) (90 / 100) r"]) simp
  fix r'
  assume d: "e \<noteq> 0 \<and> r' \<noteq> r"
  show "rebinding_in self now now' r' \<noteq> rebinding_in self now now' r"
  proof
    assume "rebinding_in self now now' r' = rebinding_in self now now' r"
    then have "e * uniform (75 / 100) (90 / 100) r' = e * uniform (75 / 100) (90 / 100) r"
      by (simp add: f)
    with d have "uniform (75 / 100) (90 / 100) r' = uniform (75 / 100) (90 / 100) r" by simp
    then have "r' = r" using uniform_inj [of "75 / 100" "90 / 100" r' r] by simp
    with d show False by simp
  qed
qed

theorem fallback_jitter_witness:
  "getitem_str (ack lease_time_only) ''options'' = Inr (PDict [(''lease_time'', PInt 120), (''router'', PList [])]) \<and>
   expiration_in lease_time_only 1010 = Inr (PFloat 110) \<and>
   renewal_in lease_time_only 1010 1010 (1 / 2) = Inr (PFloat 55) \<and>
   renewal_in lease_time_only 1010 1010 (1 / 4) \<noteq> renewal_in lease_time_only 1010 1010 (1 / 2) \<and>
   rebinding_in lease_time_only 1010 1010 (1 / 2) = Inr (PFloat (363 / 4))"
proof -
  have o: "getitem_str (ack lease_time_only) ''options'' = Inr (PDict [(''lease_time'', PInt 120), (''router'', PList [])])"
    by (simp add: example_defs)
  have e: "expiration_in lease_time_only 1010 = Inr (PFloat 110)"
    by (simp add: timer_defs example_defs)
  have r: "(0::real) \<le> 1 / 2" "(1::real) / 2 < 1" by simp_all
  from fallback_jitter [OF o e r, of 1010] have
    "\<exists>k. 4 / 10 \<le> k \<and> k \<le> 6 / 10 \<and> renewal_in lease_time_only 1010 1010 (1 / 2) = Inr (PFloat (110 * k))"
    "renewal_in lease_time_only 1010 1010 (1 / 4) \<noteq> renewal_in lease_time_only 1010 1010 (1 / 2)"
    by auto
  with o e show ?thesis
    by (simp add: renewal_in_def rebinding_in_def timer_defs example_defs)
qed

section \<open>Facts about the options\<close>

lemma option_keys:
  "map (\<lambda>opt. str_lower (Option_name opt))
     [SUBNET_MASK, ROUTER, BROADCAST_ADDRESS, INTERFACE_MTU, NAME_SERVER, SERVER_ID,
      DOMAIN_NAME, DOMAIN_SEARCH] =
   [''subnet_mask'', ''router'', ''broadcast_address'', ''interface_mtu'', ''name_server'',
    ''server_id'', ''domain_name'', ''domain_search'']"
  by (simp add: str_lower_def char_lower_def)

lemma option_property_eq: "option_property opt = LeaseOption_get opt"
  by (cases opt)
    (simp_all add: subnet_mask_def routers_def broadcast_address_def mtu_def name_servers_def
      server_id_def domain_name_def domain_search_def)

lemma LeaseOption_get_absent:
  "getitem_str (ack self) ''options'' = Inr (PDict opts) \<Longrightarrow>
   map_of opts (str_lower (Option_name opt)) = None \<Longrightarrow>
   LeaseOption_get opt self = Inl (MissingOptionError opt)"
  by (simp add: LeaseOption_get_def map_of_eq_None_iff)

lemma LeaseOption_get_present:
  "getitem_str (ack self) ''options'' = Inr (PDict opts) \<Longrightarrow>
   map_of opts (str_lower (Option_name opt)) = Some v \<Longrightarrow>
   LeaseOption_get opt self = Inr v"
proof -
  assume a: "getitem_str (ack self) ''options'' = Inr (PDict opts)"
    and b: "map_of opts (str_lower (Option_name opt)) = Some v"
  from b have "str_lower (Option_name opt) \<in> fst ` set opts"
    by (metis map_of_eq_None_iff option.distinct(1))
  with a b show ?thesis by (simp add: LeaseOption_get_def)
qed

text \<open>
  C6: for each of the eight option properties, when the options mapping of the
  acknowledgement lacks the option the access raises \<^verbatim>\<open>MissingOptionError\<close> for exactly
  that option, and when the option is present its value is returned as it is stored.
\<close>

theorem option_property_lookup:
  assumes "getitem_str (ack self) ''options'' = Inr (PDict opts)"
  shows "(map_of opts (str_lower (Option_name opt)) = None \<longrightarrow>
            option_property opt self = Inl (MissingOptionError opt)) \<and>
         (\<forall>v. map_of opts (str_lower (Option_name opt)) = Some v \<longrightarrow>
            option_property opt self = Inr v)"
  using assms by (simp add: option_property_eq LeaseOption_get_absent LeaseOption_get_present)

theorem option_property_lookup_witness:
  "getitem_str (ack fake_lease) ''options'' = Inr (PDict fake_options) \<and>
   map_of fake_options ''subnet_mask'' = Some (PStr ''255.255.255.0'') \<and>
   option_property SUBNET_MASK fake_lease = Inr (PStr ''255.255.255.0'') \<and>
   map_of fake_options ''domain_name'' = None \<and>
   option_property DOMAIN_NAME fake_lease = Inl (MissingOptionError DOMAIN_NAME)"
proof -
  have o: "getitem_str (ack fake_lease) ''options'' = Inr (PDict fake_options)"
    by (simp add: example_defs)
  have k: "str_lower (Option_name SUBNET_MASK) = ''subnet_mask''"
    "str_lower (Option_name DOMAIN_NAME) = ''domain_name''"
    by (simp_all add: str_lower_def char_lower_def)
  have m: "map_of fake_options ''subnet_mask'' = Some (PStr ''255.255.255.0'')"
    "map_of fake_options ''domain_name'' = None"
    by (simp_all add: fake_options_def)
  from option_property_lookup [OF o, of SUBNET_MASK] k m
  have "option_property SUBNET_MASK fake_lease = Inr (PStr ''255.255.255.0'')"
    by simp
  moreover from option_property_lookup [OF o, of DOMAIN_NAME] k m
  have "option_property DOMAIN_NAME fake_lease = Inl (MissingOptionError DOMAIN_NAME)"
    by simp
  ultimately show ?thesis using o m by simp
qed

lemma router_key: "str_lower ''ROUTER'' = ''router''"
  by (simp add: str_lower_def char_lower_def)

text \<open>
  C4, as the code has it: \<^verbatim>\<open>default_gateway\<close> returns the first element of the
  routers; when the options lack the router option it fails with \<^verbatim>\<open>MissingOptionError\<close>
  for \<^verbatim>\<open>ROUTER\<close>; when the routers are an empty list it fails with the \<^verbatim>\<open>IndexError\<close> of
  the subscript \<^verbatim>\<open>routers[0]\<close>, which is a failure and not a value, and is not the
  failure of the missing option. There is no handling of the empty list of its own.
\<close>

theorem default_gateway_cases:
  assumes "getitem_str (ack self) ''options'' = Inr (PDict opts)"
  shows "(map_of opts ''router'' = None \<longrightarrow>
            default_gateway self = Inl (MissingOptionError ROUTER)) \<and>
         (map_of opts ''router'' = Some (PList []) \<longrightarrow>
            default_gateway self = Inl IndexError) \<and>
         (\<forall>r rs. map_of opts ''router'' = Some (PList (r # rs)) \<longrightarrow>
            default_gateway self = Inr r)"
proof (intro conjI impI allI)
  assume "map_of opts ''router'' = None"
  then have "routers self = Inl (MissingOptionError ROUTER)"
    unfolding routers_def using assms by (intro LeaseOption_get_absent) (simp_all add: router_key)
  then show "default_gateway self = Inl (MissingOptionError ROUTER)"
    by (simp add: default_gateway_def)
next
  assume "map_of opts ''router'' = Some (PList [])"
  then have "routers self = Inr (PList [])"
    unfolding routers_def using assms by (intro LeaseOption_get_present) (simp_all add: router_key)
  then show "default_gateway self = Inl IndexError"
    by (simp add: default_gateway_def seq_index_def)
next
  fix r rs
  assume "map_of opts ''router'' = Some (PList (r # rs))"
  then have "routers self = Inr (PList (r # rs))"
    unfolding routers_def using assms by (intro LeaseOption_get_present) (simp_all add: router_key)
  then show "default_gateway self = Inr r"
    by (simp add: default_gateway_def seq_index_def)
qed

theorem default_gateway_cases_witness:
  "getitem_str (ack fake_lease) ''options'' = Inr (PDict fake_options) \<and>
   map_of fake_options ''router'' = Some (PList [PStr ''192.168.112.1'']) \<and>
   default_gateway fake_lease = Inr (PStr ''192.168.112.1'') \<and>
   default_gateway lease_time_only = Inl IndexError \<and>
   default_gateway no_timers = Inl (MissingOptionError ROUTER)"
proof -
  have o: "getitem_str (ack fake_lease) ''options'' = Inr (PDict fake_options)"
    "getitem_str (ack lease_time_only) ''options'' =
       Inr (PDict [(''lease_time'', PInt 120), (''router'', PList [])])"
    "getitem_str (ack no_timers) ''options'' =
       Inr (PDict [(''subnet_mask'', PStr ''255.255.255.0'')])"
    by (simp_all add: example_defs)
  have m: "map_of fake_options ''router'' = Some (PList [PStr ''192.168.112.1''])"
    by (simp add: fake_options_def)
  from default_gateway_cases [OF o(1)] m
  have "default_gateway fake_lease = Inr (PStr ''192.168.112.1'')" by blast
  moreover from default_gateway_cases [OF o(2)]
  have "default_gateway lease_time_only = Inl IndexError" by simp
  moreover from default_gateway_cases [OF o(3)]
  have "default_gateway no_timers = Inl (MissingOptionError ROUTER)" by simp
  ultimately show ?thesis using o m by simp
qed

text \<open>
  C4, as stated, asks for a failure of the empty list that can be told apart. The
  code has none: the empty list fails through the subscript alone, with the same
  \<^verbatim>\<open>IndexError\<close> that routers decoded to an empty string give.
\<close>

theorem default_gateway_empty_list_not_told_apart:
  "routers (lease_with [(''router'', PList [])]) = Inr (PList []) \<and>
   default_gateway (lease_with [(''router'', PList [])]) = Inl IndexError \<and>
   routers (lease_with [(''router'', PStr [])]) = Inr (PStr []) \<and>
   default_gateway (lease_with [(''router'', PStr [])]) = Inl IndexError"
  by (simp add: default_gateway_def routers_def LeaseOption_get_def lease_with_def
      str_lower_def char_lower_def seq_index_def is_substring_def)

section \<open>Facts about lease files\<close>

lemma Lease_init_asdict: "Lease_init now (asdict self) = Inr self"
  by (simp add: Lease_init_def asdict_def field_names_def)

lemma dump_success:
  assumes "dump fs cwd self = (recs, Inr fs')"
  obtains ifname p fs1 where "interface self = PStr ifname" "get_path cwd ifname = Inr p"
    "open_wt fs p = Inr fs1" "fs' = json_dump (asdict self) fs1 p"
  using assms
  by (auto simp: dump_def Let_def split: pyval.splits sum.splits)

lemma load_document:
  assumes "get_path cwd ifname = Inr p" and "fs p = Some (File (Document d))"
  shows "snd (load fs cwd now ifname) =
           (case Lease_init now d of
              Inl e \<Rightarrow> (if e = FileNotFoundError \<or> e = TypeError then Inr None else Inl e)
            | Inr lease \<Rightarrow> Inr (Some lease))"
  using assms
  by (simp add: load_def load_body_def open_rt_def json_load_def Let_def split: sum.splits)

lemma load_missing:
  assumes "get_path cwd ifname = Inr p" and "fs p = None"
  shows "load fs cwd now ifname =
           ([(INFO, ''No existing lease at %s for %s'', [Arg_path p, Arg_str ifname])], Inr None)"
  using assms by (simp add: load_def load_body_def open_rt_def)

lemma load_undecodable:
  assumes "get_path cwd ifname = Inr p" and "fs p = Some (File (Undecodable s))"
  shows "load fs cwd now ifname =
           ([(INFO, ''Loading lease for %s from %s'', [Arg_str ifname, Arg_path p])],
            Inl JSONDecodeError)"
  using assms by (simp add: load_def load_body_def open_rt_def json_load_def)

lemma load_not_a_record:
  assumes "get_path cwd ifname = Inr p" and "fs p = Some (File (Document d))"
    and "Lease_init now d = Inl TypeError"
  shows "load fs cwd now ifname =
           ([(INFO, ''Loading lease for %s from %s'', [Arg_str ifname, Arg_path p]),
             (WARNING, ''Error loading lease: %s'', [Arg_error TypeError])], Inr None)"
  using assms by (simp add: load_def load_body_def open_rt_def json_load_def)

lemma Lease_init_error: "Lease_init now d = Inl e \<Longrightarrow> e = TypeError"
  by (auto simp: Lease_init_def split: pyval.splits if_splits option.splits)

lemma split_sep_no_sep: "CHR ''/'' \<notin> set s \<Longrightarrow> split_sep s = [s]"
  by (induction s) auto

lemma rfind_absent: "c \<notin> set s \<Longrightarrow> rfind c s = None"
  by (induction s) auto

lemma rfind_last: "c \<notin> set a \<Longrightarrow> rfind c (stem @ c # a) = Some (length stem)"
  by (induction stem) (simp_all add: rfind_absent)

lemma get_path_replaces_suffix:
  assumes "stem \<noteq> []" and "a \<noteq> []" and "CHR ''.'' \<notin> set a"
    and "CHR ''/'' \<notin> set stem" and "CHR ''/'' \<notin> set a"
  shows "get_path cwd (stem @ ''.'' @ a) = Inr (cwd @ [stem @ ''.lease.json''])"
proof -
  let ?name = "stem @ CHR ''.'' # a"
  have nosep: "CHR ''/'' \<notin> set ?name" using assms(4,5) by simp
  have ne: "?name \<noteq> []" "?name \<noteq> ''.''" using assms(1) by (cases stem; simp)+
  have hd: "hd ?name \<noteq> CHR ''/''" using assms(1,4) by (cases stem) auto
  have j: "joinpath cwd ?name = cwd @ [?name]"
    using ne hd by (simp add: joinpath_def path_parts_def split_sep_no_sep [OF nosep])
  have n: "path_name (cwd @ [?name]) = ?name" by (simp add: path_name_def)
  have s: "suffix (cwd @ [?name]) = CHR ''.'' # a"
    using assms(1,2,3) by (simp add: suffix_def n rfind_last)
  show ?thesis
    using ne by (simp add: get_path_def with_suffix_def j n s)
qed

lemma get_path_eth0_100: "get_path cwd ''eth0.100'' = Inr (cwd @ [''eth0.lease.json''])"
  by (simp add: get_path_def with_suffix_def joinpath_def path_parts_def path_name_def suffix_def)

lemma get_path_eth0_200: "get_path cwd ''eth0.200'' = Inr (cwd @ [''eth0.lease.json''])"
  by (simp add: get_path_def with_suffix_def joinpath_def path_parts_def path_name_def suffix_def)

lemma get_path_eth0: "get_path cwd ''eth0'' = Inr (cwd @ [''eth0.lease.json''])"
  by (simp add: get_path_def with_suffix_def joinpath_def path_parts_def path_name_def suffix_def)

text \<open>
  C3: \<^verbatim>\<open>load\<close> returns \<^verbatim>\<open>None\<close> when there is no lease file (\<open>load_missing\<close>) and when
  the document is not a lease record (\<open>load_not_a_record\<close>), both logged and not
  raised. A file whose text does not decode is a different matter: \<^verbatim>\<open>json.load\<close> raises
  \<^verbatim>\<open>JSONDecodeError\<close>, no handler of \<^verbatim>\<open>load\<close> takes it, and \<^verbatim>\<open>load\<close> raises.
\<close>

theorem load_corrupt_file_raises:
  "load corrupt_fs srv now ''eth0'' =
     ([(INFO, ''Loading lease for %s from %s'',
        [Arg_str ''eth0'', Arg_path [''srv'', ''eth0.lease.json'']])],
      Inl JSONDecodeError)"
  by (simp add: load_undecodable [where p = "[''srv'', ''eth0.lease.json'']"] get_path_eth0
      srv_def corrupt_fs_def)

text \<open>
  C8: a lease that has been dumped is loaded back, for the same interface, as the
  same lease: the same address, subnet mask, time of obtaining and options.
\<close>

theorem dump_load_roundtrip:
  assumes "interface self = PStr ifname" and "dump fs cwd self = (recs, Inr fs')"
  shows "\<exists>lease. snd (load fs' cwd now ifname) = Inr (Some lease) \<and> lease = self \<and>
           ip lease = ip self \<and> subnet_mask lease = subnet_mask self \<and>
           obtained lease = obtained self \<and>
           getitem_str (ack lease) ''options'' = getitem_str (ack self) ''options''"
proof -
  from assms(2) obtain ifname' p fs1 where i: "interface self = PStr ifname'"
    and p: "get_path cwd ifname' = Inr p" and fs': "fs' = json_dump (asdict self) fs1 p"
    by (rule dump_success)
  from i assms(1) have "ifname' = ifname" by simp
  with p have p': "get_path cwd ifname = Inr p" by simp
  from fs' have "fs' p = Some (File (Document (asdict self)))" by (simp add: json_dump_def)
  with p' have "snd (load fs' cwd now ifname) = Inr (Some self)"
    by (simp add: load_document Lease_init_asdict)
  then show ?thesis by simp
qed

lemma dump_fake_lease:
  "dump empty_fs srv fake_lease =
     ([(INFO, ''Writing lease for %s to %s'',
        [Arg_value (PStr ''eth0''), Arg_path [''srv'', ''eth0.lease.json'']])],
      Inr (json_dump (asdict fake_lease) (empty_fs([''srv'', ''eth0.lease.json''] \<mapsto> File (Undecodable [])))
             [''srv'', ''eth0.lease.json'']))"
proof -
  have i: "interface fake_lease = PStr ''eth0''" by (simp add: example_defs)
  have p: "get_path srv ''eth0'' = Inr [''srv'', ''eth0.lease.json'']"
    by (simp add: get_path_eth0 srv_def)
  have w: "open_wt empty_fs [''srv'', ''eth0.lease.json''] =
      Inr (empty_fs([''srv'', ''eth0.lease.json''] \<mapsto> File (Undecodable [])))"
    by (simp add: open_wt_def empty_fs_def srv_def)
  show ?thesis by (simp add: dump_def i p w)
qed

theorem dump_load_roundtrip_witness:
  "interface fake_lease = PStr ''eth0'' \<and>
   (\<exists>recs fs'. dump empty_fs srv fake_lease = (recs, Inr fs') \<and>
      snd (load fs' srv 7 ''eth0'') = Inr (Some fake_lease))"
proof -
  have i: "interface fake_lease = PStr ''eth0''" by (simp add: example_defs)
  from dump_load_roundtrip [OF i dump_fake_lease, of 7]
  have "snd (load (json_dump (asdict fake_lease)
          (empty_fs([''srv'', ''eth0.lease.json''] \<mapsto> File (Undecodable [])))
          [''srv'', ''eth0.lease.json'']) srv 7 ''eth0'') = Inr (Some fake_lease)"
    by simp
  with i dump_fake_lease show ?thesis by blast
qed

text \<open>
  C9: the path of the lease file is not injective in the interface name.
  \<^verbatim>\<open>with_suffix\<close> replaces what follows the last dot of the name, so \<^verbatim>\<open>eth0.100\<close> and
  \<^verbatim>\<open>eth0.200\<close> have the same lease file, and a lease dumped for the first is what
  \<^verbatim>\<open>load\<close> returns for the second.
\<close>

theorem get_path_not_injective:
  "get_path cwd ''eth0.100'' = get_path cwd ''eth0.200'' \<and> ''eth0.100'' \<noteq> ''eth0.200'' \<and>
   \<not> inj (get_path cwd) \<and>
   (\<forall>stem a b. stem \<noteq> [] \<and> a \<noteq> [] \<and> b \<noteq> [] \<and> CHR ''.'' \<notin> set (a @ b) \<and>
        CHR ''/'' \<notin> set (stem @ a @ b) \<longrightarrow>
      get_path cwd (stem @ ''.'' @ a) = get_path cwd (stem @ ''.'' @ b)) \<and>
   (interface self = PStr ''eth0.100'' \<and> dump fs cwd self = (recs, Inr fs') \<longrightarrow>
      snd (load fs' cwd now ''eth0.200'') = Inr (Some self))"
proof (intro conjI impI allI)
  show e: "get_path cwd ''eth0.100'' = get_path cwd ''eth0.200''"
    by (simp only: get_path_eth0_100 get_path_eth0_200)
  show n: "''eth0.100'' \<noteq> ''eth0.200''" by simp
  from e n show "\<not> inj (get_path cwd)" by (auto simp: inj_def)
  show "get_path cwd (stem @ ''.'' @ a) = get_path cwd (stem @ ''.'' @ b)"
    if "stem \<noteq> [] \<and> a \<noteq> [] \<and> b \<noteq> [] \<and> CHR ''.'' \<notin> set (a @ b) \<and>
        CHR ''/'' \<notin> set (stem @ a @ b)" for stem a b
    using that get_path_replaces_suffix [of stem a cwd] get_path_replaces_suffix [of stem b cwd]
    by simp
  assume a: "interface self = PStr ''eth0.100'' \<and> dump fs cwd self = (recs, Inr fs')"
  then obtain ifname' p fs1 where i: "interface self = PStr ifname'"
    and p: "get_path cwd ifname' = Inr p" and fs': "fs' = json_dump (asdict self) fs1 p"
    by (blast elim: dump_success)
  from i a have "ifname' = ''eth0.100''" by simp
  with p have "get_path cwd ''eth0.200'' = Inr p" using e by simp
  moreover from fs' have "fs' p = Some (File (Document (asdict self)))"
    by (simp add: json_dump_def)
  ultimately show "snd (load fs' cwd now ''eth0.200'') = Inr (Some self)"
    by (simp add: load_document Lease_init_asdict)
qed

lemma dump_vlan_lease:
  "dump empty_fs srv vlan_lease =
     ([(INFO, ''Writing lease for %s to %s'',
        [Arg_value (PStr ''eth0.100''), Arg_path [''srv'', ''eth0.lease.json'']])],
      Inr (json_dump (asdict vlan_lease) (empty_fs([''srv'', ''eth0.lease.json''] \<mapsto> File (Undecodable [])))
             [''srv'', ''eth0.lease.json'']))"
proof -
  have i: "interface vlan_lease = PStr ''eth0.100''" by (simp add: example_defs)
  have p: "get_path srv ''eth0.100'' = Inr [''srv'', ''eth0.lease.json'']"
    by (simp add: get_path_eth0_100 srv_def)
  have w: "open_wt empty_fs [''srv'', ''eth0.lease.json''] =
      Inr (empty_fs([''srv'', ''eth0.lease.json''] \<mapsto> File (Undecodable [])))"
    by (simp add: open_wt_def empty_fs_def srv_def)
  show ?thesis by (simp add: dump_def i p w)
qed

theorem get_path_not_injective_witness:
  "interface vlan_lease = PStr ''eth0.100'' \<and>
   (\<exists>recs fs'. dump empty_fs srv vlan_lease = (recs, Inr fs') \<and>
      snd (load fs' srv 7 ''eth0.200'') = Inr (Some vlan_lease)) \<and>
   CHR ''.'' \<notin> set (''1'' @ ''2'') \<and> CHR ''/'' \<notin> set (''br0'' @ ''1'' @ ''2'') \<and>
   get_path srv ''br0.1'' = get_path srv ''br0.2''"
proof -
  note t = get_path_not_injective [where cwd = srv and self = vlan_lease and fs = empty_fs
      and now = 7]
  have i: "interface vlan_lease = PStr ''eth0.100''" by (simp add: example_defs)
  from t i dump_vlan_lease
  have "snd (load (json_dump (asdict vlan_lease)
          (empty_fs([''srv'', ''eth0.lease.json''] \<mapsto> File (Undecodable [])))
          [''srv'', ''eth0.lease.json'']) srv 7 ''eth0.200'') = Inr (Some vlan_lease)"
    by blast
  with i dump_vlan_lease have d: "\<exists>recs fs'. dump empty_fs srv vlan_lease = (recs, Inr fs') \<and>
      snd (load fs' srv 7 ''eth0.200'') = Inr (Some vlan_lease)"
    by blast
  from t have "\<forall>stem a b. stem \<noteq> [] \<and> a \<noteq> [] \<and> b \<noteq> [] \<and> CHR ''.'' \<notin> set (a @ b) \<and>
        CHR ''/'' \<notin> set (stem @ a @ b) \<longrightarrow>
      get_path srv (stem @ ''.'' @ a) = get_path srv (stem @ ''.'' @ b)"
    by blast
  then have "''br0'' \<noteq> [] \<and> ''1'' \<noteq> [] \<and> ''2'' \<noteq> [] \<and> CHR ''.'' \<notin> set (''1'' @ ''2'') \<and>
        CHR ''/'' \<notin> set (''br0'' @ ''1'' @ ''2'') \<longrightarrow>
      get_path srv (''br0'' @ ''.'' @ ''1'') = get_path srv (''br0'' @ ''.'' @ ''2'')"
    by blast
  then have "get_path srv ''br0.1'' = get_path srv ''br0.2''" by simp
  with i d show ?thesis by simp
qed

text \<open>
  C10: \<^verbatim>\<open>load\<close> does not validate what it loads. Whatever the values of a document
  whose keys are \<^verbatim>\<open>ack\<close>, \<^verbatim>\<open>interface\<close>, \<^verbatim>\<open>server_mac\<close> and \<^verbatim>\<open>obtained\<close>, \<^verbatim>\<open>load\<close>
  returns the lease made of them. So the file of \<^verbatim>\<open>eth0\<close> can give a lease for
  another interface, whose timers raise \<^verbatim>\<open>TypeError\<close> and whose address raises
  \<^verbatim>\<open>KeyError\<close>.
\<close>

theorem load_no_validation:
  assumes "get_path cwd ifname = Inr p" and "fs p = Some (File (Document (PDict kw)))"
    and "set (map fst kw) = {''ack'', ''interface'', ''server_mac'', ''obtained''}"
  shows "(\<exists>a i m t. map_of kw ''ack'' = Some a \<and> map_of kw ''interface'' = Some i \<and>
           map_of kw ''server_mac'' = Some m \<and> map_of kw ''obtained'' = Some t \<and>
           snd (load fs cwd now ifname) =
             Inr (Some \<lparr> ack = a, interface = i, server_mac = m, obtained = t \<rparr>)) \<and>
         snd (load odd_fs srv now ''eth0'') = Inr (Some odd_lease) \<and>
         interface odd_lease \<noteq> PStr ''eth0'' \<and>
         expiration_in odd_lease now = Inl TypeError \<and>
         renewal_in odd_lease now now' r = Inl TypeError \<and>
         ip odd_lease = Inl KeyError"
proof (intro conjI)
  have k: "\<And>k. k \<in> {''ack'', ''interface'', ''server_mac'', ''obtained''} \<Longrightarrow> \<exists>v. map_of kw k = Some v"
    using assms(3) by (metis map_of_eq_None_iff not_None_eq set_map)
  obtain a where a: "map_of kw ''ack'' = Some a" using k [of "''ack''"] by auto
  obtain i where i: "map_of kw ''interface'' = Some i" using k [of "''interface''"] by auto
  obtain m where m: "map_of kw ''server_mac'' = Some m" using k [of "''server_mac''"] by auto
  obtain t where t: "map_of kw ''obtained'' = Some t" using k [of "''obtained''"] by auto
  have all: "list_all (\<lambda>k. k \<in> set field_names) (map fst kw)"
    unfolding list_all_iff assms(3) field_names_def by simp
  have "Lease_init now (PDict kw) = Inr \<lparr> ack = a, interface = i, server_mac = m, obtained = t \<rparr>"
    using a i m t all by (simp add: Lease_init_def)
  with assms(1,2) have "snd (load fs cwd now ifname) =
      Inr (Some \<lparr> ack = a, interface = i, server_mac = m, obtained = t \<rparr>)"
    by (simp add: load_document)
  with a i m t show "\<exists>a i m t. map_of kw ''ack'' = Some a \<and> map_of kw ''interface'' = Some i \<and>
           map_of kw ''server_mac'' = Some m \<and> map_of kw ''obtained'' = Some t \<and>
           snd (load fs cwd now ifname) =
             Inr (Some \<lparr> ack = a, interface = i, server_mac = m, obtained = t \<rparr>)"
    by blast
next
  have p: "get_path srv ''eth0'' = Inr [''srv'', ''eth0.lease.json'']"
    by (simp add: get_path_eth0 srv_def)
  have f: "odd_fs [''srv'', ''eth0.lease.json''] = Some (File (Document (PDict odd_record)))"
    by (simp add: odd_fs_def)
  have "Lease_init now (PDict odd_record) = Inr odd_lease"
    by (simp add: Lease_init_def odd_record_def odd_lease_def field_names_def)
  with p f show "snd (load odd_fs srv now ''eth0'') = Inr (Some odd_lease)"
    by (simp add: load_document [where fs = odd_fs and p = "[''srv'', ''eth0.lease.json'']"])
next
  show "interface odd_lease \<noteq> PStr ''eth0''" by (simp add: odd_lease_def)
next
  show e: "expiration_in odd_lease now = Inl TypeError"
    by (simp add: timer_defs odd_lease_def)
  show "renewal_in odd_lease now now' r = Inl TypeError"
    by (simp add: renewal_in_def timer_defs odd_lease_def)
next
  show "ip odd_lease = Inl KeyError" by (simp add: ip_def odd_lease_def)
qed

theorem load_no_validation_witness:
  "get_path srv ''eth0'' = Inr [''srv'', ''eth0.lease.json''] \<and>
   odd_fs [''srv'', ''eth0.lease.json''] = Some (File (Document (PDict odd_record))) \<and>
   set (map fst odd_record) = {''ack'', ''interface'', ''server_mac'', ''obtained''} \<and>
   snd (load odd_fs srv 0 ''eth0'') = Inr (Some odd_lease) \<and>
   expiration_in odd_lease 0 = Inl TypeError"
proof -
  have p: "get_path srv ''eth0'' = Inr [''srv'', ''eth0.lease.json'']"
    by (simp add: get_path_eth0 srv_def)
  have f: "odd_fs [''srv'', ''eth0.lease.json''] = Some (File (Document (PDict odd_record)))"
    by (simp add: odd_fs_def)
  have s: "set (map fst odd_record) = {''ack'', ''interface'', ''server_mac'', ''obtained''}"
    by (simp add: odd_record_def)
  from load_no_validation [where cwd = srv and ifname = "''eth0''" and fs = odd_fs
      and p = "[''srv'', ''eth0.lease.json'']" and kw = odd_record and now = 0] p f s
  show ?thesis by simp
qed

section \<open>Facts about the hooks\<close>

lemma fold_max_ge: "(a::real) \<le> fold max xs a"
proof (induction xs arbitrary: a)
  case Nil
  show ?case by simp
next
  case (Cons x xs)
  have "a \<le> max x a" by simp
  also have "max x a \<le> fold max xs (max x a)" by (rule Cons.IH)
  finally show ?case by simp
qed

lemma fold_max_upper: "x \<in> set xs \<Longrightarrow> (x::real) \<le> fold max xs a"
proof (induction xs arbitrary: a)
  case Nil
  then show ?case by simp
next
  case (Cons y ys)
  show ?case
  proof (cases "x = y")
    case True
    have "x \<le> max y a" using True by simp
    also have "max y a \<le> fold max ys (max y a)" by (rule fold_max_ge)
    finally show ?thesis by simp
  next
    case False
    with Cons.prems have "x \<in> set ys" by simp
    then show ?thesis using Cons.IH by simp
  qed
qed

lemma fold_max_le: "(\<forall>x \<in> set xs. x \<le> b) \<Longrightarrow> a \<le> b \<Longrightarrow> fold max xs a \<le> (b::real)"
  by (induction xs arbitrary: a) simp_all

lemma fold_max_mem: "fold max xs a = (a::real) \<or> fold max xs a \<in> set xs"
proof (induction xs arbitrary: a)
  case Nil
  show ?case by simp
next
  case (Cons x xs)
  from Cons.IH [of "max x a"] show ?case by (auto simp: max_def split: if_splits)
qed

lemma settled_at_le: "settled_at run timeout \<le> timeout"
  by (cases run) (simp_all add: settled_at_def)

lemma settled_at_exceeds: "exceeds run timeout \<Longrightarrow> settled_at run timeout = timeout"
  by (cases run) (simp_all add: settled_at_def exceeds_def)

lemma guarded_exceeds:
  "exceeds (hook_body h lease) timeout \<Longrightarrow>
   guarded h lease timeout = Inr (Timeout, [(ERROR, timed_out_message (hook_name h))])"
  by (cases "hook_body h lease") (simp_all add: guarded_def wait_for_def exceeds_def)

lemma guarded_raises:
  "hook_body h lease = Raises d description \<Longrightarrow> d \<le> timeout \<Longrightarrow>
   guarded h lease timeout =
     Inr (Exception description, [(ERROR, failed_message (hook_name h) description)])"
  by (simp add: guarded_def wait_for_def)

lemma guarded_completes:
  "hook_body h lease = Completes d \<Longrightarrow> d \<le> timeout \<Longrightarrow>
   guarded h lease timeout = Inr (Success, [])"
  by (simp add: guarded_def wait_for_def)

lemma guarded_returns: "\<exists>r. guarded h lease timeout = Inr r"
  by (simp add: guarded_def split: sum.splits hook_error.splits)

lemma guarded_messages:
  "guarded h lease timeout = Inr (out, msgs) \<Longrightarrow>
   msgs = (case out of
             Success \<Rightarrow> []
           | Timeout \<Rightarrow> [(ERROR, timed_out_message (hook_name h))]
           | Exception description \<Rightarrow> [(ERROR, failed_message (hook_name h) description)])"
  by (auto simp: guarded_def split: sum.splits hook_error.splits)

lemma gather_returns:
  "\<forall>x \<in> set xs. \<exists>r. x = Inr r \<Longrightarrow>
   \<exists>rs. gather xs = Inr rs \<and> length rs = length xs \<and> (\<forall>i < length xs. xs ! i = Inr (rs ! i))"
proof (induction xs)
  case Nil
  show ?case by simp
next
  case (Cons x xs)
  then obtain r where r: "x = Inr r" by auto
  from Cons obtain rs where rs: "gather xs = Inr rs" "length rs = length xs"
    "\<forall>i < length xs. xs ! i = Inr (rs ! i)" by auto
  have "\<forall>i < length (x # xs). (x # xs) ! i = Inr ((r # rs) ! i)"
    using r rs(3) by (auto simp: nth_Cons split: nat.splits)
  with r rs(1,2) show ?case by simp
qed

text \<open>
  C1: whatever the hooks, the lease, the trigger and the timeout, \<^verbatim>\<open>run_hooks\<close>
  returns a report and raises nothing. The report has one outcome for each hook, in
  the order of the hooks: a hook still running at the deadline is cancelled there and
  timed out, a hook that fails within the timeout has failed with its description, a
  hook that completes within the timeout has succeeded. The log holds, for each hook
  in turn, nothing on success, the error \<^verbatim>\<open>Hook '<name>' timed out\<close> on a time-out and
  the error \<^verbatim>\<open>Hook <name> failed: <description>\<close> on a failure, and nothing else.
  \<^verbatim>\<open>run_hooks\<close> returns no earlier than any hook settles, no later than the deadline,
  and at the moment the last hook settles.
\<close>

theorem run_hooks_isolates:
  "\<exists>report. run_hooks hooks lease trigger timeout = Inr report \<and>
     length (outcomes report) = length hooks \<and>
     (\<forall>i < length hooks.
        (exceeds (hook_body (hooks ! i) lease) timeout \<longrightarrow>
           outcomes report ! i = Timeout \<and>
           settled_at (hook_body (hooks ! i) lease) timeout = timeout) \<and>
        (\<forall>d description.
           hook_body (hooks ! i) lease = Raises d description \<and> d \<le> timeout \<longrightarrow>
           outcomes report ! i = Exception description) \<and>
        (\<forall>d. hook_body (hooks ! i) lease = Completes d \<and> d \<le> timeout \<longrightarrow>
           outcomes report ! i = Success)) \<and>
     messages report =
       concat (map (\<lambda>(h, out). case out of
                       Success \<Rightarrow> []
                     | Timeout \<Rightarrow> [(ERROR, timed_out_message (hook_name h))]
                     | Exception description \<Rightarrow>
                         [(ERROR, failed_message (hook_name h) description)])
                 (zip hooks (outcomes report))) \<and>
     (\<forall>h \<in> set hooks. \<forall>d description.
        hook_body h lease = Raises d description \<and> d \<le> timeout \<longrightarrow>
        (ERROR, failed_message (hook_name h) description) \<in> set (messages report)) \<and>
     (\<forall>h \<in> set hooks. exceeds (hook_body h lease) timeout \<longrightarrow>
        (ERROR, timed_out_message (hook_name h)) \<in> set (messages report)) \<and>
     (\<forall>h \<in> set hooks. settled_at (hook_body h lease) timeout \<le> returned_at report \<and>
        settled_at (hook_body h lease) timeout \<le> timeout) \<and>
     returned_at report \<le> max 0 timeout \<and>
     (returned_at report = 0 \<or>
      (\<exists>h \<in> set hooks. returned_at report = settled_at (hook_body h lease) timeout))"
proof -
  let ?M = "\<lambda>(h, out). case out of
                       Success \<Rightarrow> []
                     | Timeout \<Rightarrow> [(ERROR, timed_out_message (hook_name h))]
                     | Exception description \<Rightarrow>
                         [(ERROR, failed_message (hook_name h) description)]"
  let ?S = "map (\<lambda>h. settled_at (hook_body h lease) timeout) hooks"
  have "\<forall>x \<in> set (map (\<lambda>h. guarded h lease timeout) hooks). \<exists>r. x = Inr r"
    using guarded_returns by auto
  from gather_returns [OF this] obtain rs where
    g: "gather (map (\<lambda>h. guarded h lease timeout) hooks) = Inr rs"
    and len: "length rs = length hooks"
    and nth: "\<forall>i < length hooks. guarded (hooks ! i) lease timeout = Inr (rs ! i)"
    by auto
  let ?report = "\<lparr> outcomes = map fst rs, messages = concat (map snd rs),
                    returned_at = fold max ?S 0 \<rparr>"
  have 1: "run_hooks hooks lease trigger timeout = Inr ?report"
    by (simp add: run_hooks_def g)
  have 2: "length (outcomes ?report) = length hooks" by (simp add: len)
  have 3: "(exceeds (hook_body (hooks ! i) lease) timeout \<longrightarrow>
           outcomes ?report ! i = Timeout \<and>
           settled_at (hook_body (hooks ! i) lease) timeout = timeout) \<and>
        (\<forall>d description.
           hook_body (hooks ! i) lease = Raises d description \<and> d \<le> timeout \<longrightarrow>
           outcomes ?report ! i = Exception description) \<and>
        (\<forall>d. hook_body (hooks ! i) lease = Completes d \<and> d \<le> timeout \<longrightarrow>
           outcomes ?report ! i = Success)" if i: "i < length hooks" for i
  proof -
    from nth i have e: "guarded (hooks ! i) lease timeout = Inr (rs ! i)" by simp
    have o: "map fst rs ! i = fst (rs ! i)" using i len by simp
    show ?thesis
      using e guarded_exceeds [of "hooks ! i" lease timeout]
        guarded_raises [of "hooks ! i" lease _ _ timeout]
        guarded_completes [of "hooks ! i" lease _ timeout]
      by (auto simp: o settled_at_exceeds)
  qed
  have snd_eq: "snd (rs ! i) = ?M (hooks ! i, fst (rs ! i))" if i: "i < length hooks" for i
  proof -
    from nth i have "guarded (hooks ! i) lease timeout = Inr (fst (rs ! i), snd (rs ! i))"
      by simp
    from guarded_messages [OF this] show ?thesis by simp
  qed
  have "map snd rs = map ?M (zip hooks (map fst rs))"
    by (rule nth_equalityI) (simp_all add: len snd_eq)
  then have 4: "messages ?report = concat (map ?M (zip hooks (outcomes ?report)))" by simp
  have mem: "set (snd (rs ! i)) \<subseteq> set (messages ?report)" if "i < length hooks" for i
    using that len by (auto intro!: bexI [of _ "rs ! i"])
  have 5: "(ERROR, failed_message (hook_name h) description) \<in> set (messages ?report)"
    if "h \<in> set hooks" "hook_body h lease = Raises d description" "d \<le> timeout"
    for h d description
  proof -
    from that(1) obtain i where i: "i < length hooks" "hooks ! i = h"
      by (auto simp: in_set_conv_nth)
    with nth guarded_raises [OF that(2,3)]
    have "snd (rs ! i) = [(ERROR, failed_message (hook_name h) description)]" by auto
    with mem [OF i(1)] show ?thesis by auto
  qed
  have 6: "(ERROR, timed_out_message (hook_name h)) \<in> set (messages ?report)"
    if "h \<in> set hooks" "exceeds (hook_body h lease) timeout" for h
  proof -
    from that(1) obtain i where i: "i < length hooks" "hooks ! i = h"
      by (auto simp: in_set_conv_nth)
    with nth guarded_exceeds [OF that(2)]
    have "snd (rs ! i) = [(ERROR, timed_out_message (hook_name h))]" by auto
    with mem [OF i(1)] show ?thesis by auto
  qed
  have 7: "settled_at (hook_body h lease) timeout \<le> returned_at ?report \<and>
        settled_at (hook_body h lease) timeout \<le> timeout" if "h \<in> set hooks" for h
    using that by (simp add: fold_max_upper settled_at_le)
  have 8: "returned_at ?report \<le> max 0 timeout"
    using fold_max_le [of ?S "max 0 timeout" 0] settled_at_le
    by (auto simp: le_max_iff_disj)
  have 9: "returned_at ?report = 0 \<or>
      (\<exists>h \<in> set hooks. returned_at ?report = settled_at (hook_body h lease) timeout)"
    using fold_max_mem [of ?S 0] by auto
  from 1 2 3 4 5 6 7 8 9 show ?thesis by blast
qed

theorem run_hooks_isolates_witness:
  "(0::nat) < length [sleepy_hook, failing_hook, quick_hook] \<and>
   sleepy_hook \<in> set [sleepy_hook, failing_hook, quick_hook] \<and>
   exceeds (hook_body ([sleepy_hook, failing_hook, quick_hook] ! 0) fake_lease) (1 / 10) \<and>
   hook_body ([sleepy_hook, failing_hook, quick_hook] ! 1) fake_lease =
     Raises 0 ''RuntimeError('boom')'' \<and>
   hook_body ([sleepy_hook, failing_hook, quick_hook] ! 2) fake_lease = Completes 0 \<and>
   (\<exists>report. run_hooks [sleepy_hook, failing_hook, quick_hook] fake_lease BOUND (1 / 10) =
        Inr report \<and>
      outcomes report = [Timeout, Exception ''RuntimeError('boom')'', Success] \<and>
      messages report =
        [(ERROR, ''Hook 'sleepy_hook' timed out''),
         (ERROR, ''Hook failing_hook failed: RuntimeError('boom')'')] \<and>
      returned_at report = 1 / 10)"
  using run_hooks_isolates [of "[sleepy_hook, failing_hook, quick_hook]" fake_lease BOUND "1 / 10"]
  by (simp add: run_hooks_def guarded_def sleepy_hook_def failing_hook_def quick_hook_def
      exceeds_def wait_for_def settled_at_def timed_out_message_def failed_message_def)

end
